theory Spec2Isabelle
  imports Main
begin

section \<open>Python values, the catalogue file and the process state\<close>

text \<open>
  A form value or a JSON value of a course is either a \<open>str\<close> or Python's \<open>None\<close>
  (JSON \<open>null\<close>): \<open>request.form.get(k)\<close> returns \<open>None\<close> for an absent key, and
  \<open>json.dump\<close>/\<open>json.load\<close> carry \<open>None\<close> through the file as \<open>null\<close>.
\<close>

type_synonym pyval = "string option"

text \<open>A course is a Python \<open>dict\<close>, kept as an association list in insertion order.\<close>

type_synonym course = "(string \<times> pyval) list"

text \<open>\<open>request.form\<close>, read only through \<open>request.form.get\<close>.\<close>

type_synonym form = "string \<Rightarrow> string option"

datatype pyerror = JSONDecodeError | KeyError string

text \<open>
  \<open>COURSE_FILE\<close>: the file does not exist, or it exists and \<open>json.load\<close> raises on it,
  or it holds a JSON array of course objects.
\<close>

datatype catalog_file = Absent | Unparsable | Contents "course list"

datatype file_op = Exists_check | Read_file | Write_file

datatype http_method = GET | HEAD | POST

text \<open>
  What a route hands back. Each constructor stands for one \<open>return\<close> of \<open>app.py\<close>:
  \<open>Index_page\<close>, \<open>Catalog cs\<close>, \<open>Found c\<close> and \<open>Add_course_page\<close> are the four
  \<open>render_template\<close> calls with their arguments; \<open>NotFound code\<close> is the redirect to the
  catalogue after the flash \<open>No course found with code ...\<close>; \<open>ValidationFailed fs\<close> is the
  redirect after the event \<open>validation_failed\<close> carrying \<open>missing_fields\<close>;
  \<open>DuplicateCode c\<close> is the redirect after the event \<open>duplicate_course_code\<close>;
  \<open>Created c\<close> is the redirect after the event \<open>course_added\<close> carrying \<open>course_data\<close>.
\<close>

datatype outcome =
    Index_page
  | Catalog "course list"
  | Found course
  | NotFound string
  | Add_course_page
  | ValidationFailed "string list"
  | DuplicateCode pyval
  | Created course

text \<open>
  The mutable state of the process: the file, the file operations performed so far, and
  the two module-level counter dictionaries. The counters are total functions on keys;
  \<open>app.py\<close> only ever indexes them with literal keys present from initialisation.
\<close>

record state =
  course_file :: catalog_file
  file_log :: "file_op list"
  route_counts :: "string \<Rightarrow> int"
  error_counts :: "string \<Rightarrow> int"

definition init_state :: state where
  "init_state = \<lparr>course_file = Absent, file_log = [], route_counts = (\<lambda>_. 0), error_counts = (\<lambda>_. 0)\<rparr>"

text \<open>\<open>counts[k] += 1\<close>\<close>

definition incr :: "(string \<Rightarrow> int) \<Rightarrow> string \<Rightarrow> (string \<Rightarrow> int)" where
  "incr counts k = counts(k := counts k + 1)"

text \<open>Python truth of a \<open>str\<close>-or-\<open>None\<close> value, and of a \<open>dict\<close>-or-\<open>None\<close> value.\<close>

definition truthy :: "pyval \<Rightarrow> bool" where
  "truthy v = (case v of None \<Rightarrow> False | Some s \<Rightarrow> s \<noteq> [])"

definition truthy_dict :: "course option \<Rightarrow> bool" where
  "truthy_dict d = (case d of None \<Rightarrow> False | Some c \<Rightarrow> c \<noteq> [])"

text \<open>\<open>d[k]\<close>, which raises \<open>KeyError\<close> on a missing key.\<close>

definition getitem :: "course \<Rightarrow> string \<Rightarrow> pyerror + pyval" where
  "getitem d k = (case map_of d k of None \<Rightarrow> Inl (KeyError k) | Some v \<Rightarrow> Inr v)"

subsection \<open>Utility functions\<close>

definition log_op :: "file_op \<Rightarrow> state \<Rightarrow> state" where
  "log_op x s = s\<lparr>file_log := file_log s @ [x]\<rparr>"

text \<open>
  \<open>load_courses\<close> and \<open>save_courses\<close> (lines 34-47 of \<open>app.py\<close>). An exception leaves the
  state as it was when it was raised, so each function returns the state beside its result.
\<close>

definition load_courses :: "state \<Rightarrow> (pyerror + course list) \<times> state" where
  "load_courses s =
     (let s1 = log_op Exists_check s in
      case course_file s1 of
        Absent \<Rightarrow> (Inr [], s1)
      | Unparsable \<Rightarrow> (Inl JSONDecodeError, log_op Read_file s1)
      | Contents cs \<Rightarrow> (Inr cs, log_op Read_file s1))"

definition save_courses :: "course \<Rightarrow> state \<Rightarrow> (pyerror + unit) \<times> state" where
  "save_courses data s =
     (case load_courses s of
        (Inl e, s1) \<Rightarrow> (Inl e, s1)
      | (Inr courses, s1) \<Rightarrow>
          (Inr (), (log_op Write_file s1)\<lparr>course_file := Contents (courses @ [data])\<rparr>))"

text \<open>
  \<open>next((course for course in courses if course['code'] == c), None)\<close>: the first
  course whose code equals \<open>c\<close>; a course without the key \<open>code\<close> met on the way raises.
\<close>

fun next_code :: "course list \<Rightarrow> pyval \<Rightarrow> pyerror + course option" where
  "next_code [] c = Inr None"
| "next_code (x # xs) c =
     (case getitem x ''code'' of
        Inl e \<Rightarrow> Inl e
      | Inr v \<Rightarrow> if v = c then Inr (Some x) else next_code xs c)"

subsection \<open>Routes\<close>

definition index :: "state \<Rightarrow> (pyerror + outcome) \<times> state" where
  "index s = (Inr Index_page, s\<lparr>route_counts := incr (route_counts s) ''index''\<rparr>)"

definition course_catalog :: "state \<Rightarrow> (pyerror + outcome) \<times> state" where
  "course_catalog s =
     (let s1 = s\<lparr>route_counts := incr (route_counts s) ''catalog''\<rparr> in
      case load_courses s1 of
        (Inl e, s2) \<Rightarrow> (Inl e, s2)
      | (Inr courses, s2) \<Rightarrow> (Inr (Catalog courses), s2))"

text \<open>
  \<open>course_details\<close> (lines 123-156 of \<open>app.py\<close>). The test \<open>if not course\<close> holds for \<open>None\<close>
  and for the empty dict; past it \<open>course\<close> is a non-empty dict, so the inner \<open>None\<close> case
  below is never taken. \<open>course['name']\<close> and \<open>course['instructor']\<close> raise \<open>KeyError\<close> on a
  record without these keys.
\<close>

definition course_details :: "string \<Rightarrow> state \<Rightarrow> (pyerror + outcome) \<times> state" where
  "course_details code s =
     (let s1 = s\<lparr>route_counts := incr (route_counts s) ''course_details''\<rparr> in
      case load_courses s1 of
        (Inl e, s2) \<Rightarrow> (Inl e, s2)
      | (Inr courses, s2) \<Rightarrow>
          (case next_code courses (Some code) of
             Inl e \<Rightarrow> (Inl e, s2)
           | Inr course \<Rightarrow>
               if \<not> truthy_dict course
               then (Inr (NotFound code),
                     s2\<lparr>error_counts := incr (error_counts s2) ''missing_fields''\<rparr>)
               else (case course of
                       None \<Rightarrow> (Inr (NotFound code), s2)
                     | Some c \<Rightarrow>
                         (case getitem c ''name'' of
                            Inl e \<Rightarrow> (Inl e, s2)
                          | Inr _ \<Rightarrow>
                              (case getitem c ''instructor'' of
                                 Inl e \<Rightarrow> (Inl e, s2)
                               | Inr _ \<Rightarrow> (Inr (Found c), s2))))))"

text \<open>The dictionary literal \<open>course_data\<close> of \<open>add_course\<close>, in its written key order.\<close>

definition course_data :: "form \<Rightarrow> course" where
  "course_data frm =
     [(''name'', frm ''name''),
      (''code'', frm ''code''),
      (''instructor'', frm ''instructor''),
      (''semester'', frm ''semester''),
      (''schedule'', frm ''schedule''),
      (''classroom'', frm ''classroom''),
      (''prerequisites'', frm ''prerequisites''),
      (''grading'', frm ''grading''),
      (''description'', frm ''description'')]"

definition required :: "string set" where
  "required = {''name'', ''code'', ''instructor'', ''semester''}"

definition missing_fields :: "course \<Rightarrow> string list" where
  "missing_fields d = [key. (key, value) \<leftarrow> d, \<not> truthy value \<and> key \<in> required]"

text \<open>
  \<open>add_course\<close> (lines 158-226 of \<open>app.py\<close>): the route counter first, then for a POST the
  validation, the duplicate check on a fresh read of the file, and \<open>save_courses\<close>, which
  reads the file again before it writes. Any other method renders the form page.
\<close>

definition add_course :: "http_method \<Rightarrow> form \<Rightarrow> state \<Rightarrow> (pyerror + outcome) \<times> state" where
  "add_course method frm s =
     (let s1 = s\<lparr>route_counts := incr (route_counts s) ''add_course''\<rparr> in
      if method = POST then
        (let d = course_data frm in
         if missing_fields d \<noteq> []
         then (Inr (ValidationFailed (missing_fields d)),
               s1\<lparr>error_counts := incr (error_counts s1) ''missing_fields''\<rparr>)
         else
           (case load_courses s1 of
              (Inl e, s2) \<Rightarrow> (Inl e, s2)
            | (Inr courses, s2) \<Rightarrow>
                (case getitem d ''code'' of
                   Inl e \<Rightarrow> (Inl e, s2)
                 | Inr c \<Rightarrow>
                     (case next_code courses c of
                        Inl e \<Rightarrow> (Inl e, s2)
                      | Inr duplicate_course \<Rightarrow>
                          if truthy_dict duplicate_course
                          then (Inr (DuplicateCode c),
                                s2\<lparr>error_counts := incr (error_counts s2) ''duplicate_code''\<rparr>)
                          else
                            (case save_courses d s2 of
                               (Inl e, s3) \<Rightarrow> (Inl e, s3)
                             | (Inr _, s3) \<Rightarrow> (Inr (Created d), s3))))))
      else (Inr Add_course_page, s1))"

subsection \<open>Dispatch\<close>

datatype request =
    Req_index
  | Req_catalog
  | Req_course_details string
  | Req_add_course http_method form

fun handle :: "request \<Rightarrow> state \<Rightarrow> (pyerror + outcome) \<times> state" where
  "handle Req_index s = index s"
| "handle Req_catalog s = course_catalog s"
| "handle (Req_course_details code) s = course_details code s"
| "handle (Req_add_course m frm) s = add_course m frm s"

fun route_name :: "request \<Rightarrow> string" where
  "route_name Req_index = ''index''"
| "route_name Req_catalog = ''catalog''"
| "route_name (Req_course_details code) = ''course_details''"
| "route_name (Req_add_course m frm) = ''add_course''"

fun run :: "request list \<Rightarrow> state \<Rightarrow> state" where
  "run [] s = s"
| "run (r # rs) s = run rs (snd (handle r s))"

subsection \<open>Well-formed stores and example inputs\<close>

text \<open>The records held by the file, read as the persisted sequence (none when absent).\<close>

fun records :: "catalog_file \<Rightarrow> course list" where
  "records Absent = []"
| "records Unparsable = []"
| "records (Contents cs) = cs"

text \<open>The value under the key \<open>code\<close>, if the key is there.\<close>

definition code_of :: "course \<Rightarrow> pyval option" where
  "code_of c = map_of c ''code''"

text \<open>
  A course record of the catalogue carries the three keys that the routes index without
  a default: \<open>code\<close>, \<open>name\<close> and \<open>instructor\<close>.
\<close>

definition wf_course :: "course \<Rightarrow> bool" where
  "wf_course c = (map_of c ''code'' \<noteq> None \<and> map_of c ''name'' \<noteq> None
                  \<and> map_of c ''instructor'' \<noteq> None)"

fun wf_file :: "catalog_file \<Rightarrow> bool" where
  "wf_file Absent = True"
| "wf_file Unparsable = False"
| "wf_file (Contents cs) = list_all wf_course cs"

definition required_order :: "string list" where
  "required_order = [''name'', ''code'', ''instructor'', ''semester'']"

definition optional_fields :: "string list" where
  "optional_fields = [''schedule'', ''classroom'', ''prerequisites'', ''grading'', ''description'']"

definition form_cs301 :: form where
  "form_cs301 = map_of [(''name'', ''Algorithms''), (''code'', ''CS301''),
                        (''instructor'', ''A. Turing''), (''semester'', ''Fall'')]"

definition form_dup :: form where
  "form_dup = map_of [(''code'', ''CS301''), (''name'', ''X''),
                      (''instructor'', ''Y''), (''semester'', ''Z'')]"

definition form_noname :: form where
  "form_noname = map_of [(''name'', ''''), (''code'', ''CS302''),
                         (''instructor'', ''B''), (''semester'', ''Spring'')]"

definition form_noname_dup :: form where
  "form_noname_dup = map_of [(''code'', ''CS301''), (''instructor'', ''''),
                             (''schedule'', ''Mon 9-11'')]"

definition form_cs302 :: form where
  "form_cs302 = map_of [(''name'', ''Data Structures''), (''code'', ''CS302''),
                        (''instructor'', ''B. Liskov''), (''semester'', ''Spring''),
                        (''description'', '''')]"

text \<open>The state after the first creation of the example scenario.\<close>

definition state_cs301 :: state where
  "state_cs301 = snd (add_course POST form_cs301 init_state)"

section \<open>Auxiliary facts\<close>

subsection \<open>Reading the file and searching it\<close>

lemma load_courses_Absent [simp]:
  "course_file s = Absent \<Longrightarrow> load_courses s = (Inr [], log_op Exists_check s)"
  by (simp add: load_courses_def log_op_def)

lemma load_courses_Contents [simp]:
  "course_file s = Contents cs \<Longrightarrow>
   load_courses s = (Inr cs, log_op Read_file (log_op Exists_check s))"
  by (simp add: load_courses_def log_op_def)

lemma load_courses_Unparsable [simp]:
  "course_file s = Unparsable \<Longrightarrow>
   load_courses s = (Inl JSONDecodeError, log_op Read_file (log_op Exists_check s))"
  by (simp add: load_courses_def log_op_def)

lemma load_courses_file [simp]: "course_file (snd (load_courses s)) = course_file s"
  by (cases "course_file s") (simp_all add: log_op_def)

lemma load_courses_counts [simp]:
  "route_counts (snd (load_courses s)) = route_counts s"
  "error_counts (snd (load_courses s)) = error_counts s"
  by (cases "course_file s"; simp add: log_op_def)+

lemma load_courses_wf:
  "wf_file (course_file s) \<Longrightarrow> fst (load_courses s) = Inr (records (course_file s))"
  by (cases "course_file s") simp_all

lemma load_courses_Inr:
  "fst (load_courses s) = Inr cs \<Longrightarrow> cs = records (course_file s) \<and> course_file s \<noteq> Unparsable"
  by (cases "course_file s") auto

lemma next_code_Some:
  "next_code cs c = Inr (Some x) \<Longrightarrow> x \<in> set cs \<and> code_of x = Some c \<and> x \<noteq> []"
  by (induction cs) (auto simp: getitem_def code_of_def split: option.splits if_splits)

lemma next_code_None:
  "next_code cs c = Inr None \<longleftrightarrow> (\<forall>x \<in> set cs. \<exists>v. code_of x = Some v \<and> v \<noteq> c)"
  by (induction cs) (auto simp: getitem_def code_of_def split: option.splits if_splits)

lemma next_code_find:
  "list_all wf_course cs \<Longrightarrow> next_code cs c = Inr (find (\<lambda>r. code_of r = Some c) cs)"
  by (induction cs) (auto simp: getitem_def code_of_def wf_course_def split: option.splits)

lemma truthy_dict_next_code:
  "next_code cs c = Inr d \<Longrightarrow> truthy_dict d \<longleftrightarrow> d \<noteq> None"
  by (cases d) (auto simp: truthy_dict_def dest: next_code_Some)

lemma missing_fields_course_data:
  "missing_fields (course_data frm) = filter (\<lambda>k. \<not> truthy (frm k)) required_order"
  by (simp add: missing_fields_def course_data_def required_def required_order_def)

lemma missing_fields_empty:
  "missing_fields (course_data frm) = [] \<longleftrightarrow> (\<forall>k \<in> required. truthy (frm k))"
  by (simp add: missing_fields_course_data required_order_def required_def filter_empty_conv)

lemma getitem_course_data_code [simp]: "getitem (course_data frm) ''code'' = Inr (frm ''code'')"
  by (simp add: getitem_def course_data_def)

lemma code_of_course_data [simp]: "code_of (course_data frm) = Some (frm ''code'')"
  by (simp add: code_of_def course_data_def)

lemma wf_course_data [simp]: "wf_course (course_data frm)"
  by (simp add: wf_course_def course_data_def)

subsection \<open>The routes on well-formed stores, and their counters\<close>

lemma find_None_fresh:
  "find (\<lambda>r. code_of r = Some c) cs = None \<longleftrightarrow> (\<forall>r \<in> set cs. code_of r \<noteq> Some c)"
  by (auto simp: find_None_iff)

lemma add_course_valid:
  assumes req: "\<forall>k \<in> required. truthy (frm k)"
    and wf: "wf_file (course_file s)"
  shows "add_course POST frm s =
     (let s2 = snd (load_courses (s\<lparr>route_counts := incr (route_counts s) ''add_course''\<rparr>)) in
      case find (\<lambda>r. code_of r = Some (frm ''code'')) (records (course_file s)) of
        Some r \<Rightarrow> (Inr (DuplicateCode (frm ''code'')),
                   s2\<lparr>error_counts := incr (error_counts s2) ''duplicate_code''\<rparr>)
      | None \<Rightarrow> (Inr (Created (course_data frm)),
                 (log_op Write_file (snd (load_courses s2)))
                   \<lparr>course_file := Contents (records (course_file s) @ [course_data frm])\<rparr>))"
proof -
  have m: "missing_fields (course_data frm) = []"
    using req by (simp add: missing_fields_empty)
  show ?thesis
  proof (cases "course_file s")
    case Absent
    then show ?thesis
      by (simp add: add_course_def m Let_def truthy_dict_def save_courses_def log_op_def)
  next
    case Unparsable
    with wf show ?thesis by simp
  next
    case (Contents cs)
    with wf have l: "list_all wf_course cs" by simp
    show ?thesis
    proof (cases "find (\<lambda>r. code_of r = Some (frm ''code'')) cs")
      case None
      with Contents l show ?thesis
        by (simp add: add_course_def m Let_def next_code_find truthy_dict_def
            save_courses_def log_op_def)
    next
      case (Some r)
      then have "next_code cs (frm ''code'') = Inr (Some r)"
        using l by (simp add: next_code_find)
      then have "r \<noteq> []" by (auto dest: next_code_Some)
      with Contents l Some show ?thesis
        by (simp add: add_course_def m Let_def next_code_find truthy_dict_def log_op_def)
    qed
  qed
qed


lemma add_course_invalid:
  assumes "\<exists>k \<in> required. \<not> truthy (frm k)"
  shows "add_course POST frm s =
     (Inr (ValidationFailed (filter (\<lambda>k. \<not> truthy (frm k)) required_order)),
      s\<lparr>route_counts := incr (route_counts s) ''add_course'',
        error_counts := incr (error_counts s) ''missing_fields''\<rparr>)"
proof -
  have "missing_fields (course_data frm) \<noteq> []"
    using assms by (simp add: missing_fields_empty)
  then show ?thesis
    by (simp add: add_course_def Let_def missing_fields_course_data)
qed

lemma course_details_wf:
  assumes wf: "wf_file (course_file s)"
  shows "course_details code s =
     (let s2 = snd (load_courses (s\<lparr>route_counts := incr (route_counts s) ''course_details''\<rparr>)) in
      case find (\<lambda>r. code_of r = Some (Some code)) (records (course_file s)) of
        Some r \<Rightarrow> (Inr (Found r), s2)
      | None \<Rightarrow> (Inr (NotFound code),
                 s2\<lparr>error_counts := incr (error_counts s2) ''missing_fields''\<rparr>))"
proof (cases "course_file s")
  case Absent
  then show ?thesis
    by (simp add: course_details_def Let_def truthy_dict_def)
next
  case Unparsable
  with wf show ?thesis by simp
next
  case (Contents cs)
  with wf have l: "list_all wf_course cs" by simp
  show ?thesis
  proof (cases "find (\<lambda>r. code_of r = Some (Some code)) cs")
    case None
    with Contents l show ?thesis
      by (simp add: course_details_def Let_def next_code_find truthy_dict_def)
  next
    case (Some r)
    then have "r \<in> set cs" by (auto simp: find_Some_iff)
    with l have w: "wf_course r" by (simp add: list_all_iff)
    then have "r \<noteq> []" by (auto simp: wf_course_def)
    with Contents l Some w show ?thesis
      by (auto simp: course_details_def Let_def next_code_find truthy_dict_def
          getitem_def wf_course_def)
  qed
qed

lemma save_courses_ok:
  "fst (load_courses s) = Inr cs \<Longrightarrow>
   save_courses d s = (Inr (), (log_op Write_file (snd (load_courses s)))\<lparr>course_file := Contents (cs @ [d])\<rparr>)"
  by (cases "load_courses s") (auto simp: save_courses_def)

lemma add_course_file:
  "course_file (snd (add_course m frm s)) = course_file s
   \<or> (m = POST \<and> missing_fields (course_data frm) = [] \<and> course_file s \<noteq> Unparsable
      \<and> next_code (records (course_file s)) (frm ''code'') = Inr None
      \<and> course_file (snd (add_course m frm s))
          = Contents (records (course_file s) @ [course_data frm]))"
proof (cases "m = POST \<and> missing_fields (course_data frm) = []")
  case False
  then show ?thesis
    by (auto simp: add_course_def Let_def)
next
  case True
  show ?thesis
  proof (cases "course_file s")
    case Absent
    with True show ?thesis
      by (simp add: add_course_def Let_def truthy_dict_def save_courses_def log_op_def)
  next
    case Unparsable
    with True show ?thesis
      by (simp add: add_course_def Let_def log_op_def)
  next
    case (Contents cs)
    show ?thesis
    proof (cases "next_code cs (frm ''code'')")
      case (Inl e)
      with True Contents show ?thesis
        by (simp add: add_course_def Let_def log_op_def)
    next
      case (Inr d)
      show ?thesis
      proof (cases d)
        case None
        with True Contents Inr show ?thesis
          by (simp add: add_course_def Let_def truthy_dict_def save_courses_def log_op_def)
      next
        case (Some x)
        with Inr have "x \<noteq> []" by (auto dest: next_code_Some)
        with True Contents Inr Some show ?thesis
          by (simp add: add_course_def Let_def truthy_dict_def log_op_def)
      qed
    qed
  qed
qed

lemma save_courses_counts [simp]:
  "route_counts (snd (save_courses d s)) = route_counts s"
  "error_counts (snd (save_courses d s)) = error_counts s"
  by (cases "course_file s"; simp add: save_courses_def log_op_def)+

lemma index_route: "route_counts (snd (index s)) = incr (route_counts s) ''index''"
  by (simp add: index_def)

lemma course_catalog_route:
  "route_counts (snd (course_catalog s)) = incr (route_counts s) ''catalog''"
  by (cases "course_file s") (simp_all add: course_catalog_def Let_def log_op_def)

lemma course_details_route:
  "route_counts (snd (course_details code s)) = incr (route_counts s) ''course_details''"
  by (cases "course_file s")
    (simp_all add: course_details_def Let_def log_op_def split: sum.splits option.splits)

lemma add_course_route:
  "route_counts (snd (add_course m frm s)) = incr (route_counts s) ''add_course''"
  by (cases "course_file s")
    (simp_all add: add_course_def Let_def log_op_def save_courses_def
      split: sum.splits option.splits)

lemma incr_mono: "counts k \<le> incr counts j k"
  by (simp add: incr_def)

lemma index_errors: "error_counts (snd (index s)) = error_counts s"
  by (simp add: index_def)

lemma course_catalog_errors: "error_counts (snd (course_catalog s)) = error_counts s"
  by (cases "course_file s") (simp_all add: course_catalog_def Let_def log_op_def)

lemma course_details_errors:
  "error_counts (snd (course_details code s)) = error_counts s
   \<or> error_counts (snd (course_details code s)) = incr (error_counts s) ''missing_fields''"
  by (cases "course_file s")
    (simp_all add: course_details_def Let_def log_op_def split: sum.splits option.splits)

lemma add_course_errors:
  "error_counts (snd (add_course m frm s)) = error_counts s
   \<or> error_counts (snd (add_course m frm s)) = incr (error_counts s) ''missing_fields''
   \<or> error_counts (snd (add_course m frm s)) = incr (error_counts s) ''duplicate_code''"
  by (cases "course_file s")
    (simp_all add: add_course_def Let_def log_op_def save_courses_def
      split: sum.splits option.splits)

lemma handle_route:
  "route_counts (snd (handle r s)) = incr (route_counts s) (route_name r)"
  by (cases r) (simp_all add: index_route course_catalog_route course_details_route add_course_route)

lemma handle_errors_mono: "error_counts s k \<le> error_counts (snd (handle r s)) k"
proof (cases r)
  case Req_index
  then show ?thesis by (simp add: index_errors)
next
  case Req_catalog
  then show ?thesis by (simp add: course_catalog_errors)
next
  case (Req_course_details code)
  then show ?thesis
    using course_details_errors [of code s] by (auto simp: incr_mono)
next
  case (Req_add_course m frm)
  then show ?thesis
    using add_course_errors [of m frm s] by (auto simp: incr_mono)
qed

lemma run_mono:
  "route_counts s k \<le> route_counts (run rs s) k \<and> error_counts s k \<le> error_counts (run rs s) k"
proof (induction rs arbitrary: s)
  case Nil
  show ?case by simp
next
  case (Cons r rs)
  have "route_counts s k \<le> route_counts (snd (handle r s)) k"
    by (simp add: handle_route incr_mono)
  moreover have "error_counts s k \<le> error_counts (snd (handle r s)) k"
    by (rule handle_errors_mono)
  ultimately show ?case
    using Cons.IH [of "snd (handle r s)"] by (simp del: handle.simps)
qed

lemma add_course_Created:
  assumes "fst (add_course m frm s) = Inr (Created r)"
  shows "r = course_data frm
     \<and> course_file (snd (add_course m frm s)) = Contents (records (course_file s) @ [r])"
proof (cases "m = POST \<and> missing_fields (course_data frm) = []")
  case False
  with assms show ?thesis
    by (auto simp: add_course_def Let_def split: if_splits)
next
  case True
  show ?thesis
  proof (cases "course_file s")
    case Absent
    with True assms show ?thesis
      by (auto simp: add_course_def Let_def truthy_dict_def save_courses_def log_op_def)
  next
    case Unparsable
    with True assms show ?thesis
      by (simp add: add_course_def Let_def log_op_def)
  next
    case (Contents cs)
    show ?thesis
    proof (cases "next_code cs (frm ''code'')")
      case (Inl e)
      with True Contents assms show ?thesis
        by (simp add: add_course_def Let_def log_op_def)
    next
      case (Inr d)
      with True Contents assms show ?thesis
        by (auto simp: add_course_def Let_def save_courses_def log_op_def split: if_splits)
    qed
  qed
qed

lemma state_cs301_file: "course_file state_cs301 = Contents [course_data form_cs301]"
  by (simp add: state_cs301_def add_course_def init_state_def Let_def missing_fields_def
      course_data_def form_cs301_def truthy_def required_def getitem_def truthy_dict_def
      save_courses_def log_op_def)

lemma required_form_cs301: "\<forall>k \<in> required. truthy (form_cs301 k)"
  by (simp add: required_def form_cs301_def truthy_def)

subsection \<open>Stores written by the routes are well-formed\<close>

lemma index_file: "course_file (snd (index s)) = course_file s"
  by (simp add: index_def)

lemma course_catalog_file: "course_file (snd (course_catalog s)) = course_file s"
  by (cases "course_file s") (simp_all add: course_catalog_def Let_def log_op_def)

lemma course_details_file: "course_file (snd (course_details code s)) = course_file s"
  by (cases "course_file s")
    (simp_all add: course_details_def Let_def log_op_def split: sum.splits option.splits)

lemma add_course_wf:
  assumes "wf_file (course_file s)"
  shows "wf_file (course_file (snd (add_course m frm s)))"
proof -
  have "list_all wf_course (records (course_file s))"
    using assms by (cases "course_file s") simp_all
  then show ?thesis
    using assms add_course_file [of m frm s] by auto
qed

lemma handle_wf: "wf_file (course_file s) \<Longrightarrow> wf_file (course_file (snd (handle r s)))"
  by (cases r) (simp_all add: index_file course_catalog_file course_details_file add_course_wf)

lemma run_wf: "wf_file (course_file s) \<Longrightarrow> wf_file (course_file (run rs s))"
  by (induction rs arbitrary: s) (simp_all add: handle_wf del: handle.simps)

lemma run_init_wf: "wf_file (course_file (run rs init_state))"
  by (rule run_wf) (simp add: init_state_def)

subsection \<open>Searching an extended list\<close>

lemma find_append_None: "find P xs = None \<Longrightarrow> find P (xs @ ys) = find P ys"
  by (induction xs) (auto split: if_splits)

section \<open>Claims\<close>

text \<open>
  C1 (round trip). For every form whose required fields \<open>name\<close>, \<open>code\<close>,
  \<open>instructor\<close>, \<open>semester\<close> are all non-empty and whose code is not the code of any
  record of a well-formed store, a POST to \<open>add_course\<close> ends in \<open>Created\<close> with the record
  built from the form, a following \<open>course_details\<close> on that code finds exactly this record, and
  each of its nine fields holds what \<open>request.form.get\<close> gave for it.
\<close>

theorem create_then_get_roundtrip:
  assumes req: "\<forall>k \<in> required. truthy (frm k)"
    and wf: "wf_file (course_file s)"
    and fresh: "\<forall>r \<in> set (records (course_file s)). code_of r \<noteq> Some (frm ''code'')"
    and code: "frm ''code'' = Some code"
  shows "fst (add_course POST frm s) = Inr (Created (course_data frm))
     \<and> fst (course_details code (snd (add_course POST frm s))) = Inr (Found (course_data frm))
     \<and> (\<forall>k \<in> set (required_order @ optional_fields). map_of (course_data frm) k = Some (frm k))"
proof -
  let ?cs = "records (course_file s)"
  let ?s' = "snd (add_course POST frm s)"
  have none: "find (\<lambda>r. code_of r = Some (frm ''code'')) ?cs = None"
    using fresh by (simp add: find_None_fresh)
  have created: "fst (add_course POST frm s) = Inr (Created (course_data frm))"
    by (simp add: add_course_valid [OF req wf] Let_def none)
  have file': "course_file ?s' = Contents (?cs @ [course_data frm])"
    by (simp add: add_course_valid [OF req wf] Let_def none)
  have "list_all wf_course ?cs"
    using wf by (cases "course_file s") simp_all
  then have wf': "wf_file (course_file ?s')"
    by (simp add: file')
  have "find (\<lambda>r. code_of r = Some (Some code)) (?cs @ [course_data frm]) = Some (course_data frm)"
    using none code by (simp add: find_append_None)
  then have "fst (course_details code ?s') = Inr (Found (course_data frm))"
    by (simp add: course_details_wf [OF wf'] Let_def file')
  moreover have "\<forall>k \<in> set (required_order @ optional_fields). map_of (course_data frm) k = Some (frm k)"
    by (simp add: required_order_def optional_fields_def course_data_def)
  ultimately show ?thesis
    using created by blast
qed

theorem create_then_get_roundtrip_witness:
  "fst (add_course POST form_cs301 init_state) = Inr (Created (course_data form_cs301))
   \<and> fst (course_details ''CS301'' (snd (add_course POST form_cs301 init_state)))
       = Inr (Found (course_data form_cs301))
   \<and> map_of (course_data form_cs301) ''semester'' = Some (form_cs301 ''semester'')"
proof -
  have h1: "\<forall>k \<in> required. truthy (form_cs301 k)"
    by (simp add: required_def form_cs301_def truthy_def)
  have h2: "wf_file (course_file init_state)"
    by (simp add: init_state_def)
  have h3: "\<forall>r \<in> set (records (course_file init_state)). code_of r \<noteq> Some (form_cs301 ''code'')"
    by (simp add: init_state_def)
  have h4: "form_cs301 ''code'' = Some ''CS301''"
    by (simp add: form_cs301_def)
  show ?thesis
    using create_then_get_roundtrip [OF h1 h2 h3 h4]
    by (simp add: required_order_def)
qed

text \<open>
  C2 (validation failure). For every form in which at least one of the required fields
  \<open>name\<close>, \<open>code\<close>, \<open>instructor\<close>, \<open>semester\<close> is absent (\<open>None\<close>) or the empty string,
  a POST to \<open>add_course\<close> ends in \<open>ValidationFailed\<close> with exactly the missing required fields, in
  the order \<open>name\<close>, \<open>code\<close>, \<open>instructor\<close>, \<open>semester\<close> in which \<open>course_data\<close> is traversed; the
  file is unchanged and no file operation took place.
\<close>

theorem validation_failed_lists_missing:
  assumes "\<exists>k \<in> required. \<not> truthy (frm k)"
  shows "fst (add_course POST frm s)
           = Inr (ValidationFailed (filter (\<lambda>k. frm k = None \<or> frm k = Some []) required_order))
     \<and> course_file (snd (add_course POST frm s)) = course_file s
     \<and> file_log (snd (add_course POST frm s)) = file_log s"
proof -
  have "\<And>k. (\<not> truthy (frm k)) = (frm k = None \<or> frm k = Some [])"
    by (simp add: truthy_def split: option.splits)
  then show ?thesis
    by (simp add: add_course_invalid [OF assms])
qed

theorem validation_failed_lists_missing_witness:
  "fst (add_course POST form_noname_dup state_cs301)
     = Inr (ValidationFailed [''name'', ''instructor'', ''semester''])
   \<and> course_file (snd (add_course POST form_noname_dup state_cs301)) = course_file state_cs301"
proof -
  have h: "\<exists>k \<in> required. \<not> truthy (form_noname_dup k)"
    by (simp add: required_def form_noname_dup_def truthy_def)
  have "filter (\<lambda>k. form_noname_dup k = None \<or> form_noname_dup k = Some []) required_order
          = [''name'', ''instructor'', ''semester'']"
    by (simp add: required_order_def form_noname_dup_def)
  then show ?thesis
    using validation_failed_lists_missing [OF h, of state_cs301] by simp
qed

text \<open>
  C3 (duplicate code). For every form whose required fields are all non-empty and whose code
  is equal, as a string, to the code of some record of a well-formed store, a POST to
  \<open>add_course\<close> ends in \<open>DuplicateCode\<close> with that code; the file is unchanged, and the only file
  operations are the existence check and the read of the duplicate check (no write).
\<close>

theorem duplicate_code_rejected:
  assumes req: "\<forall>k \<in> required. truthy (frm k)"
    and wf: "wf_file (course_file s)"
    and dup: "\<exists>r \<in> set (records (course_file s)). code_of r = Some (frm ''code'')"
  shows "fst (add_course POST frm s) = Inr (DuplicateCode (frm ''code''))
     \<and> course_file (snd (add_course POST frm s)) = course_file s
     \<and> file_log (snd (add_course POST frm s)) = file_log s @ [Exists_check, Read_file]"
proof -
  obtain r where "find (\<lambda>r. code_of r = Some (frm ''code'')) (records (course_file s)) = Some r"
    using dup by (cases "find (\<lambda>r. code_of r = Some (frm ''code'')) (records (course_file s))")
      (auto simp: find_None_fresh)
  then show ?thesis
    using wf by (cases "course_file s") (simp_all add: add_course_valid [OF req wf] Let_def log_op_def)
qed

theorem duplicate_code_rejected_witness:
  "fst (add_course POST form_dup state_cs301) = Inr (DuplicateCode (Some ''CS301''))
   \<and> course_file (snd (add_course POST form_dup state_cs301)) = course_file state_cs301"
proof -
  have h1: "\<forall>k \<in> required. truthy (form_dup k)"
    by (simp add: required_def form_dup_def truthy_def)
  have h2: "wf_file (course_file state_cs301)"
    by (simp add: state_cs301_file)
  have h3: "\<exists>r \<in> set (records (course_file state_cs301)). code_of r = Some (form_dup ''code'')"
    by (simp add: state_cs301_file form_dup_def form_cs301_def)
  have "form_dup ''code'' = Some ''CS301''"
    by (simp add: form_dup_def)
  then show ?thesis
    using duplicate_code_rejected [OF h1 h2 h3] by simp
qed

text \<open>
  C4 (uniqueness invariant). If the codes of the stored records are pairwise distinct before a
  call of \<open>add_course\<close>, they are pairwise distinct after it, for every method, form and state;
  and whenever the call changes the file, the new file is the old sequence followed by the
  record built from the form, whose code is not the code of any record stored before.
\<close>

theorem codes_stay_distinct:
  assumes "distinct (map code_of (records (course_file s)))"
  shows "distinct (map code_of (records (course_file (snd (add_course m frm s)))))
     \<and> (course_file (snd (add_course m frm s)) \<noteq> course_file s \<longrightarrow>
          course_file (snd (add_course m frm s))
            = Contents (records (course_file s) @ [course_data frm])
          \<and> code_of (course_data frm) \<notin> set (map code_of (records (course_file s))))"
proof (cases "course_file (snd (add_course m frm s)) = course_file s")
  case True
  with assms show ?thesis by simp
next
  case False
  with add_course_file [of m frm s]
  have nc: "next_code (records (course_file s)) (frm ''code'') = Inr None"
    and f: "course_file (snd (add_course m frm s))
              = Contents (records (course_file s) @ [course_data frm])"
    by auto
  from nc have "\<forall>x \<in> set (records (course_file s)). code_of x \<noteq> Some (frm ''code'')"
    by (auto simp: next_code_None)
  then have "code_of (course_data frm) \<notin> set (map code_of (records (course_file s)))"
    by auto
  with assms f show ?thesis by simp
qed

theorem codes_stay_distinct_witness:
  "distinct (map code_of (records (course_file state_cs301)))
   \<and> distinct (map code_of (records (course_file (snd (add_course POST form_cs302 state_cs301)))))
   \<and> course_file (snd (add_course POST form_cs302 state_cs301))
       = Contents [course_data form_cs301, course_data form_cs302]"
proof -
  have h: "distinct (map code_of (records (course_file state_cs301)))"
    by (simp add: state_cs301_file)
  have r: "\<forall>k \<in> required. truthy (form_cs302 k)"
    by (simp add: required_def form_cs302_def truthy_def)
  have w: "wf_file (course_file state_cs301)"
    by (simp add: state_cs301_file)
  have n: "find (\<lambda>r. code_of r = Some (form_cs302 ''code'')) [course_data form_cs301] = None"
    by (simp add: form_cs301_def form_cs302_def)
  have "course_file (snd (add_course POST form_cs302 state_cs301))
      = Contents [course_data form_cs301, course_data form_cs302]"
    by (simp add: add_course_valid [OF r w] Let_def state_cs301_file n del: find.simps)
  then show ?thesis
    using h codes_stay_distinct [OF h, of POST form_cs302] by simp
qed

text \<open>
  C5 (frame of save). For every record \<open>d\<close> and every prior sequence \<open>cs\<close> that
  \<open>load_courses\<close> reads, \<open>save_courses d\<close> succeeds and leaves the file holding \<open>cs\<close> with \<open>d\<close>
  appended at the end; reading it back gives that sequence, every earlier record keeps its
  position, and the new record is the last one.
\<close>

theorem save_courses_appends:
  assumes "fst (load_courses s) = Inr cs"
  shows "fst (save_courses d s) = Inr ()
     \<and> course_file (snd (save_courses d s)) = Contents (cs @ [d])
     \<and> fst (load_courses (snd (save_courses d s))) = Inr (cs @ [d])
     \<and> (\<forall>i < length cs. (cs @ [d]) ! i = cs ! i) \<and> (cs @ [d]) ! length cs = d"
  by (simp add: save_courses_ok [OF assms] nth_append)

theorem save_courses_appends_witness:
  "fst (load_courses state_cs301) = Inr [course_data form_cs301]
   \<and> course_file (snd (save_courses (course_data form_cs302) state_cs301))
       = Contents [course_data form_cs301, course_data form_cs302]"
proof -
  have h: "fst (load_courses state_cs301) = Inr [course_data form_cs301]"
    by (simp add: state_cs301_file)
  show ?thesis
    using h save_courses_appends [OF h, of "course_data form_cs302"] by simp
qed

text \<open>
  C6 (lookup). For every code and every well-formed store, \<open>course_details\<close> ends in \<open>Found\<close>
  with the first stored record whose code equals the argument when there is one; when no
  stored record has that code it ends in \<open>NotFound\<close> and \<open>error_counts['missing_fields']\<close> grows
  by exactly 1, the other error counters staying as they were; in both cases the file is
  unchanged.
\<close>

theorem course_details_first_match:
  assumes wf: "wf_file (course_file s)"
  shows "(\<forall>r. find (\<lambda>r. code_of r = Some (Some code)) (records (course_file s)) = Some r \<longrightarrow>
            fst (course_details code s) = Inr (Found r))
     \<and> ((\<forall>r \<in> set (records (course_file s)). code_of r \<noteq> Some (Some code)) \<longrightarrow>
            fst (course_details code s) = Inr (NotFound code)
            \<and> error_counts (snd (course_details code s))
                = (error_counts s)(''missing_fields'' := error_counts s ''missing_fields'' + 1))
     \<and> course_file (snd (course_details code s)) = course_file s"
proof -
  have "course_file (snd (course_details code s)) = course_file s"
    by (simp add: course_details_wf [OF wf] Let_def split: option.splits)
  moreover have "fst (course_details code s) = Inr (Found r)"
    if "find (\<lambda>r. code_of r = Some (Some code)) (records (course_file s)) = Some r" for r
    using that by (simp add: course_details_wf [OF wf] Let_def)
  moreover have "fst (course_details code s) = Inr (NotFound code)
      \<and> error_counts (snd (course_details code s))
          = (error_counts s)(''missing_fields'' := error_counts s ''missing_fields'' + 1)"
    if "\<forall>r \<in> set (records (course_file s)). code_of r \<noteq> Some (Some code)"
  proof -
    from that have "find (\<lambda>r. code_of r = Some (Some code)) (records (course_file s)) = None"
      by (simp add: find_None_fresh)
    then show ?thesis
      by (simp add: course_details_wf [OF wf] Let_def incr_def)
  qed
  ultimately show ?thesis by blast
qed

theorem course_details_first_match_witness:
  "fst (course_details ''CS301'' state_cs301) = Inr (Found (course_data form_cs301))
   \<and> fst (course_details ''CS999'' state_cs301) = Inr (NotFound ''CS999'')
   \<and> error_counts (snd (course_details ''CS999'' state_cs301)) ''missing_fields''
       = error_counts state_cs301 ''missing_fields'' + 1
   \<and> course_file (snd (course_details ''CS999'' state_cs301)) = course_file state_cs301"
proof -
  have w: "wf_file (course_file state_cs301)"
    by (simp add: state_cs301_file)
  have a: "find (\<lambda>r. code_of r = Some (Some ''CS301'')) (records (course_file state_cs301))
             = Some (course_data form_cs301)"
    by (simp add: state_cs301_file form_cs301_def)
  have b: "\<forall>r \<in> set (records (course_file state_cs301)). code_of r \<noteq> Some (Some ''CS999'')"
    by (simp add: state_cs301_file form_cs301_def)
  show ?thesis
    using a b course_details_first_match [OF w, of "''CS301''"]
      course_details_first_match [OF w, of "''CS999''"]
    by simp
qed

text \<open>
  C7 (absent or empty store). When the catalogue file does not exist, \<open>load_courses\<close> returns
  the empty list and does not fail; \<open>course_catalog\<close> on an absent file or on a file holding
  the empty list renders the catalogue with the empty list and does not fail.
\<close>

theorem absent_or_empty_store_lists_nothing:
  "fst (load_courses (s\<lparr>course_file := Absent\<rparr>)) = Inr []
   \<and> fst (course_catalog (s\<lparr>course_file := Absent\<rparr>)) = Inr (Catalog [])
   \<and> fst (course_catalog (s\<lparr>course_file := Contents []\<rparr>)) = Inr (Catalog [])"
  by (simp add: course_catalog_def Let_def)

theorem absent_or_empty_store_lists_nothing_witness:
  "fst (load_courses init_state) = Inr [] \<and> fst (course_catalog init_state) = Inr (Catalog [])"
proof -
  have "init_state\<lparr>course_file := Absent\<rparr> = init_state"
    by (simp add: init_state_def)
  then show ?thesis
    using absent_or_empty_store_lists_nothing [of init_state] by simp
qed

text \<open>
  C8 as stated fails. The form of the example scenario has no \<open>schedule\<close> field; the record
  built from it and written to the file holds \<open>None\<close> (JSON \<open>null\<close>) under \<open>schedule\<close>, not the
  empty string.
\<close>

theorem absent_optional_is_none_counterexample:
  "form_cs301 ''schedule'' = None
   \<and> fst (add_course POST form_cs301 init_state) = Inr (Created (course_data form_cs301))
   \<and> course_file (snd (add_course POST form_cs301 init_state)) = Contents [course_data form_cs301]
   \<and> map_of (course_data form_cs301) ''schedule'' = Some None
   \<and> map_of (course_data form_cs301) ''schedule'' \<noteq> Some (Some '''')"
proof -
  have w: "wf_file (course_file init_state)"
    by (simp add: init_state_def)
  have n: "records (course_file init_state) = []"
    by (simp add: init_state_def)
  have "fst (add_course POST form_cs301 init_state) = Inr (Created (course_data form_cs301))
      \<and> course_file (snd (add_course POST form_cs301 init_state))
          = Contents [course_data form_cs301]"
    by (simp add: add_course_valid [OF required_form_cs301 w] Let_def n)
  moreover have "form_cs301 ''schedule'' = None"
    by (simp add: form_cs301_def)
  ultimately show ?thesis
    by (simp add: course_data_def)
qed

text \<open>
  C8 (amended). For every form in which an optional field (\<open>schedule\<close>, \<open>classroom\<close>,
  \<open>prerequisites\<close>, \<open>grading\<close>, \<open>description\<close>) is absent, the record that a successful POST to
  \<open>add_course\<close> builds and appends to the file holds \<open>None\<close> (JSON \<open>null\<close>) for that field,
  which is not the empty string.
\<close>

theorem absent_optional_stored_as_none:
  assumes k: "k \<in> set optional_fields"
    and absent: "frm k = None"
    and created: "fst (add_course POST frm s) = Inr (Created r)"
  shows "r = course_data frm \<and> map_of r k = Some None \<and> map_of r k \<noteq> Some (Some '''')
     \<and> course_file (snd (add_course POST frm s)) = Contents (records (course_file s) @ [r])"
proof -
  have "map_of (course_data frm) k = Some (frm k)"
    using k by (auto simp: optional_fields_def course_data_def)
  with absent add_course_Created [OF created] show ?thesis
    by simp
qed

theorem absent_optional_stored_as_none_witness:
  "map_of (course_data form_cs301) ''grading'' = Some None
   \<and> course_file (snd (add_course POST form_cs301 init_state)) = Contents [course_data form_cs301]"
proof -
  have h1: "''grading'' \<in> set optional_fields"
    by (simp add: optional_fields_def)
  have h2: "form_cs301 ''grading'' = None"
    by (simp add: form_cs301_def)
  have w: "wf_file (course_file init_state)"
    by (simp add: init_state_def)
  have n: "records (course_file init_state) = []"
    by (simp add: init_state_def)
  have h3: "fst (add_course POST form_cs301 init_state) = Inr (Created (course_data form_cs301))"
    by (simp add: add_course_valid [OF required_form_cs301 w] Let_def n)
  show ?thesis
    using absent_optional_stored_as_none [OF h1 h2 h3] n by simp
qed

text \<open>
  C9 (counter monotonicity). Every dispatch of a route, whatever its result, adds exactly 1 to
  the route's own entry of \<open>route_counts\<close> and leaves the other entries alone; no dispatch
  lowers an entry of \<open>error_counts\<close>; hence over any sequence of requests no entry of
  \<open>route_counts\<close> or \<open>error_counts\<close> decreases.
\<close>

theorem counters_never_decrease:
  "route_counts (snd (handle r s))
     = (route_counts s)(route_name r := route_counts s (route_name r) + 1)
   \<and> (\<forall>k. error_counts s k \<le> error_counts (snd (handle r s)) k)
   \<and> (\<forall>k. route_counts s k \<le> route_counts (run rs s) k
          \<and> error_counts s k \<le> error_counts (run rs s) k)"
proof -
  have "route_counts (snd (handle r s))
     = (route_counts s)(route_name r := route_counts s (route_name r) + 1)"
    by (simp add: handle_route incr_def del: handle.simps)
  moreover have "\<forall>k. error_counts s k \<le> error_counts (snd (handle r s)) k"
    by (simp add: handle_errors_mono del: handle.simps)
  moreover have "\<forall>k. route_counts s k \<le> route_counts (run rs s) k
          \<and> error_counts s k \<le> error_counts (run rs s) k"
    using run_mono [of s _ rs] by blast
  ultimately show ?thesis by blast
qed

theorem counters_never_decrease_witness:
  "route_counts (snd (handle (Req_course_details ''CS301'') init_state)) ''course_details'' = 1
   \<and> route_counts (snd (handle (Req_course_details ''CS301'') init_state)) ''catalog'' = 0
   \<and> 0 \<le> route_counts (run [Req_catalog, Req_add_course POST form_cs301, Req_index] init_state)
            ''add_course''"
proof -
  have z: "route_counts init_state = (\<lambda>_. 0)"
    by (simp add: init_state_def)
  show ?thesis
    using counters_never_decrease [of "Req_course_details ''CS301''" init_state
        "[Req_catalog, Req_add_course POST form_cs301, Req_index]"]
    by (simp add: z del: handle.simps run.simps)
qed

text \<open>
  C10 (validation precedes duplicate detection). For every form missing at least one required
  field and every state, also one whose store already holds the form's code, a POST to
  \<open>add_course\<close> ends in \<open>ValidationFailed\<close> with a non-empty list;
  \<open>error_counts['duplicate_code']\<close> is unchanged, \<open>error_counts['missing_fields']\<close> grows by 1,
  and no file operation takes place (the catalogue file is not read).
\<close>

theorem validation_precedes_duplicate_check:
  assumes "\<exists>k \<in> required. \<not> truthy (frm k)"
  shows "(\<exists>fs. fs \<noteq> [] \<and> fst (add_course POST frm s) = Inr (ValidationFailed fs))
     \<and> error_counts (snd (add_course POST frm s)) ''duplicate_code''
         = error_counts s ''duplicate_code''
     \<and> error_counts (snd (add_course POST frm s)) ''missing_fields''
         = error_counts s ''missing_fields'' + 1
     \<and> file_log (snd (add_course POST frm s)) = file_log s"
proof -
  have "filter (\<lambda>k. \<not> truthy (frm k)) required_order \<noteq> []"
    using assms by (simp add: missing_fields_empty flip: missing_fields_course_data)
  then show ?thesis
    by (simp add: add_course_invalid [OF assms] incr_def)
qed

theorem validation_precedes_duplicate_check_witness:
  "(\<exists>r \<in> set (records (course_file state_cs301)). code_of r = Some (form_noname_dup ''code''))
   \<and> (\<exists>fs. fst (add_course POST form_noname_dup state_cs301) = Inr (ValidationFailed fs))
   \<and> error_counts (snd (add_course POST form_noname_dup state_cs301)) ''duplicate_code''
       = error_counts state_cs301 ''duplicate_code''
   \<and> file_log (snd (add_course POST form_noname_dup state_cs301)) = file_log state_cs301"
proof -
  have h: "\<exists>k \<in> required. \<not> truthy (form_noname_dup k)"
    by (simp add: required_def form_noname_dup_def truthy_def)
  have d: "\<exists>r \<in> set (records (course_file state_cs301)). code_of r = Some (form_noname_dup ''code'')"
    by (simp add: state_cs301_file form_noname_dup_def form_cs301_def)
  show ?thesis
    using d validation_precedes_duplicate_check [OF h, of state_cs301] by blast
qed

end
